theory Spec2Isabelle
  imports Main "HOL-Library.Word"
begin

unbundle bit_operations_syntax

section \<open>Data model: the three chunks of a WAV header\<close>

text \<open>
  Both programs, \<^verbatim>\<open>wav-util.c\<close> and \<^verbatim>\<open>wav-look.c\<close>, declare the same three
  structs and the same \<^verbatim>\<open>wav_header\<close>. A \<^verbatim>\<open>char\<close> and a \<^verbatim>\<open>uint8_t\<close> are a byte,
  \<^verbatim>\<open>uint16_t\<close> and \<^verbatim>\<open>uint32_t\<close> are words of that width, and \<^verbatim>\<open>char chunkID[ID_LEN]\<close>
  is an array of exactly four bytes, modelled as a 4-tuple so that no value of the type
  has another length. An \<^verbatim>\<open>int\<close> is a 32-bit word.
\<close>

type_synonym u8 = "8 word"
type_synonym u16 = "16 word"
type_synonym u32 = "32 word"
type_synonym chunk_id = "u8 \<times> u8 \<times> u8 \<times> u8"

definition ID_LEN :: nat where
  "ID_LEN = 4"

definition BLOCK :: nat where
  "BLOCK = 4096"

definition BITS_PER_BYTE :: u32 where
  "BITS_PER_BYTE = 8"

definition D_START :: u32 where
  "D_START = 100"

definition D_END :: u32 where
  "D_END = 30"

record riff_chunk =
  chunkID :: chunk_id
  chunkSize :: u32
  format :: chunk_id

record fmt_chunk =
  chunkID :: chunk_id
  chunkSize :: u32
  audioFormat :: u16
  numChannels :: u16
  sampleRate :: u32
  byteRate :: u32
  blockAlign :: u16
  bitsPerSample :: u16

record data_chunk =
  chunkID :: chunk_id
  chunkSize :: u32

record wav_header =
  r :: riff_chunk
  f :: fmt_chunk
  d :: data_chunk

text \<open>
  A string literal of the source is its characters followed by the terminating NUL:
  \<^verbatim>\<open>const char *RIFF_ID = "RIFF"\<close> points to five bytes.
\<close>

definition cstring :: "string \<Rightarrow> u8 list" where
  "cstring s = map of_char s @ [0]"

definition RIFF_ID :: "u8 list" where
  "RIFF_ID = cstring ''RIFF''"

definition RIFF_FMT :: "u8 list" where
  "RIFF_FMT = cstring ''WAVE''"

definition FMT_ID :: "u8 list" where
  "FMT_ID = cstring ''fmt ''"

definition DATA_ID :: "u8 list" where
  "DATA_ID = cstring ''data''"

definition sample_name :: string where
  "sample_name = ''sample.wav''"

definition silence_name :: string where
  "silence_name = ''silence.wav''"

definition modified_name :: string where
  "modified_name = ''modified.wav''"

definition id_bytes :: "chunk_id \<Rightarrow> u8 list" where
  "id_bytes c = (case c of (c0, c1, c2, c3) \<Rightarrow> [c0, c1, c2, c3])"

text \<open>The four bytes a tag is expected to hold: the literal without its NUL.\<close>

definition tag :: "string \<Rightarrow> chunk_id" where
  "tag s = (of_char (s ! 0), of_char (s ! 1), of_char (s ! 2), of_char (s ! 3))"


section \<open>The size of the header\<close>

text \<open>
  \<^verbatim>\<open>const size_t HEADER_SIZE = sizeof(wav_header)\<close>. The size of a struct is computed
  from its members, each given by its size and its alignment: a member starts at the
  next multiple of its alignment, and the struct ends at the next multiple of the largest
  alignment among its members. The fixed-width integers have their natural alignment
  (their size), a \<^verbatim>\<open>char\<close> array the alignment 1.
\<close>

type_synonym member = "nat \<times> nat"

definition align_up :: "nat \<Rightarrow> nat \<Rightarrow> nat" where
  "align_up off a = ((off + a - 1) div a) * a"

definition struct_align :: "member list \<Rightarrow> nat" where
  "struct_align ms = fold (\<lambda>(s, a) m. max a m) ms 1"

definition struct_end :: "member list \<Rightarrow> nat" where
  "struct_end ms = fold (\<lambda>(s, a) off. align_up off a + s) ms 0"

definition struct_size :: "member list \<Rightarrow> nat" where
  "struct_size ms = align_up (struct_end ms) (struct_align ms)"

definition char_array :: "nat \<Rightarrow> member" where
  "char_array n = (n, 1)"

definition uint16_t :: member where
  "uint16_t = (2, 2)"

definition uint32_t :: member where
  "uint32_t = (4, 4)"

definition riff_chunk_members :: "member list" where
  "riff_chunk_members = [char_array ID_LEN, uint32_t, char_array ID_LEN]"

definition fmt_chunk_members :: "member list" where
  "fmt_chunk_members =
     [char_array ID_LEN, uint32_t, uint16_t, uint16_t, uint32_t, uint32_t, uint16_t, uint16_t]"

definition data_chunk_members :: "member list" where
  "data_chunk_members = [char_array ID_LEN, uint32_t]"

definition struct_member :: "member list \<Rightarrow> member" where
  "struct_member ms = (struct_size ms, struct_align ms)"

definition wav_header_members :: "member list" where
  "wav_header_members =
     [struct_member riff_chunk_members, struct_member fmt_chunk_members,
      struct_member data_chunk_members]"

definition HEADER_SIZE :: nat where
  "HEADER_SIZE = struct_size wav_header_members"

text \<open>The sum of the widths of the fields, with nothing between them.\<close>

definition field_width_sum :: nat where
  "field_width_sum =
     sum_list (map fst riff_chunk_members) + sum_list (map fst fmt_chunk_members)
       + sum_list (map fst data_chunk_members)"


section \<open>The bytes of a header\<close>

text \<open>
  The programs read and write the header as the bytes of the struct:
  \<^verbatim>\<open>fread(&header, HEADER_SIZE, 1, original)\<close> and
  \<^verbatim>\<open>fwrite(&header, HEADER_SIZE, 1, f)\<close>. On a little-endian host those bytes are the
  fields in declaration order, an integer with its least significant byte first; every
  field already starts at a multiple of its alignment, so no padding lies between them.
  \<open>encode\<close> is the byte sequence \<^verbatim>\<open>fwrite\<close> takes from the struct, \<open>decode\<close> the struct
  \<^verbatim>\<open>fread\<close> leaves from \<open>HEADER_SIZE\<close> bytes.
\<close>

definition le16 :: "u16 \<Rightarrow> u8 list" where
  "le16 w = [ucast w, ucast (drop_bit 8 w)]"

definition le32 :: "u32 \<Rightarrow> u8 list" where
  "le32 w = [ucast w, ucast (drop_bit 8 w), ucast (drop_bit 16 w), ucast (drop_bit 24 w)]"

definition rd16 :: "u8 list \<Rightarrow> u16" where
  "rd16 bs = ucast (bs ! 0) OR push_bit 8 (ucast (bs ! 1))"

definition rd32 :: "u8 list \<Rightarrow> u32" where
  "rd32 bs =
     ucast (bs ! 0) OR push_bit 8 (ucast (bs ! 1)) OR push_bit 16 (ucast (bs ! 2))
       OR push_bit 24 (ucast (bs ! 3))"

definition rd_id :: "u8 list \<Rightarrow> chunk_id" where
  "rd_id bs = (bs ! 0, bs ! 1, bs ! 2, bs ! 3)"

definition encode_riff :: "riff_chunk \<Rightarrow> u8 list" where
  "encode_riff c =
     id_bytes (riff_chunk.chunkID c) @ le32 (riff_chunk.chunkSize c) @ id_bytes (format c)"

definition encode_fmt :: "fmt_chunk \<Rightarrow> u8 list" where
  "encode_fmt c =
     id_bytes (fmt_chunk.chunkID c) @ le32 (fmt_chunk.chunkSize c)
       @ le16 (audioFormat c) @ le16 (numChannels c)
       @ le32 (sampleRate c) @ le32 (byteRate c)
       @ le16 (blockAlign c) @ le16 (bitsPerSample c)"

definition encode_data :: "data_chunk \<Rightarrow> u8 list" where
  "encode_data c = id_bytes (data_chunk.chunkID c) @ le32 (data_chunk.chunkSize c)"

definition encode :: "wav_header \<Rightarrow> u8 list" where
  "encode h = encode_riff (r h) @ encode_fmt (f h) @ encode_data (d h)"

definition slice :: "nat \<Rightarrow> nat \<Rightarrow> u8 list \<Rightarrow> u8 list" where
  "slice off n bs = take n (drop off bs)"

definition decode :: "u8 list \<Rightarrow> wav_header" where
  "decode bs =
     \<lparr> r = \<lparr> riff_chunk.chunkID = rd_id (slice 0 4 bs),
              riff_chunk.chunkSize = rd32 (slice 4 4 bs),
              format = rd_id (slice 8 4 bs) \<rparr>,
       f = \<lparr> fmt_chunk.chunkID = rd_id (slice 12 4 bs),
              fmt_chunk.chunkSize = rd32 (slice 16 4 bs),
              audioFormat = rd16 (slice 20 2 bs),
              numChannels = rd16 (slice 22 2 bs),
              sampleRate = rd32 (slice 24 4 bs),
              byteRate = rd32 (slice 28 4 bs),
              blockAlign = rd16 (slice 32 2 bs),
              bitsPerSample = rd16 (slice 34 2 bs) \<rparr>,
       d = \<lparr> data_chunk.chunkID = rd_id (slice 36 4 bs),
              data_chunk.chunkSize = rd32 (slice 40 4 bs) \<rparr> \<rparr>"


section \<open>Streams\<close>

text \<open>
  An input \<^verbatim>\<open>FILE*\<close> is the list of bytes not yet read. \<^verbatim>\<open>fread(buf, size, nmemb, fp)\<close>
  transfers bytes until \<open>sz * nmemb\<close> are read or the file ends, and returns the number
  of complete items. The result is the count, the bytes transferred and the rest of the
  stream.
\<close>

definition fread :: "nat \<Rightarrow> nat \<Rightarrow> u8 list \<Rightarrow> nat \<times> u8 list \<times> u8 list" where
  "fread sz nmemb inp =
     (let k = min (sz * nmemb) (length inp) in (k div sz, take k inp, drop k inp))"

text \<open>
  An output \<^verbatim>\<open>FILE*\<close> holds the bytes written so far and the number of bytes the device
  still accepts (\<open>None\<close>: no limit). \<^verbatim>\<open>fwrite(buf, size, nmemb, fp)\<close> writes as many of the
  \<open>sz * nmemb\<close> bytes as the device accepts and returns the number of complete items.
\<close>

record out_file =
  contents :: "u8 list"
  room :: "nat option"

definition fwrite :: "u8 list \<Rightarrow> nat \<Rightarrow> nat \<Rightarrow> out_file \<Rightarrow> nat \<times> out_file" where
  "fwrite buf sz nmemb fp =
     (let want = sz * nmemb;
          k = (case room fp of None \<Rightarrow> want | Some rm \<Rightarrow> min want rm)
      in (k div sz,
          fp\<lparr> contents := contents fp @ take k buf,
              room := map_option (\<lambda>rm. rm - k) (room fp) \<rparr>))"

text \<open>
  Every failure prints a message and calls \<^verbatim>\<open>exit(EXIT_FAILURE)\<close>; the error value is
  the message with its arguments. A division by zero is no exit of the program: its
  behaviour is undefined in C, and on the usual hosts the process is killed by a trap.
\<close>

datatype error =
    HeaderReadFailed nat
  | CreateFailed string
  | HeaderWriteFailed string nat
  | AudioWriteFailed string nat
  | DivisionByZero


section \<open>Verifying the header\<close>

text \<open>
  \<^verbatim>\<open>strncmp(s1, s2, n)\<close> compares at most \<open>n\<close> bytes as \<^verbatim>\<open>unsigned char\<close> and stops
  after a NUL. The lists are the bytes from each pointer on; reading past them is
  \<open>None\<close>.
\<close>

fun strncmp :: "u8 list \<Rightarrow> u8 list \<Rightarrow> nat \<Rightarrow> int option" where
  "strncmp s1 s2 0 = Some 0"
| "strncmp (c1 # s1) (c2 # s2) (Suc n) =
     (if c1 \<noteq> c2 then Some (uint c1 - uint c2)
      else if c1 = 0 then Some 0
      else strncmp s1 s2 n)"
| "strncmp s1 s2 (Suc n) = None"

text \<open>A C condition \<^verbatim>\<open>if (strncmp(...))\<close> holds when the result is not 0.\<close>

definition differs :: "int option \<Rightarrow> bool" where
  "differs res = (res \<noteq> Some 0)"

definition verify_file :: "wav_header \<Rightarrow> int" where
  "verify_file input =
     (let error = 0;
          error = (if differs (strncmp (id_bytes (riff_chunk.chunkID (r input))) RIFF_ID ID_LEN)
                   then error + 1 else error);
          error = (if differs (strncmp (id_bytes (format (r input))) RIFF_FMT ID_LEN)
                   then error + 1 else error);
          error = (if differs (strncmp (id_bytes (fmt_chunk.chunkID (f input))) FMT_ID ID_LEN)
                   then error + 1 else error);
          error = (if differs (strncmp (id_bytes (data_chunk.chunkID (d input))) DATA_ID ID_LEN)
                   then error + 1 else error)
      in error)"


section \<open>Reading and creating files\<close>

text \<open>
  \<^verbatim>\<open>main\<close>, "try to read in the header": \<^verbatim>\<open>fread(&header, HEADER_SIZE, 1, original)\<close>
  must return one item. The result is the header and the rest of the input, the audio
  data.
\<close>

definition read_header :: "u8 list \<Rightarrow> error + wav_header \<times> u8 list" where
  "read_header original =
     (case fread HEADER_SIZE 1 original of
        (header_read, buf, rest) \<Rightarrow>
          if header_read < 1 then Inl (HeaderReadFailed header_read)
          else Inr (decode buf, rest))"

text \<open>
  \<^verbatim>\<open>strcmp\<close> on names, a name being the characters before the NUL; the result is 0
  when the names are equal.
\<close>

fun strcmp :: "string \<Rightarrow> string \<Rightarrow> int" where
  "strcmp [] [] = 0"
| "strcmp [] (c2 # s2) = - of_char c2"
| "strcmp (c1 # s1) [] = of_char c1"
| "strcmp (c1 # s1) (c2 # s2) =
     (if c1 = c2 then strcmp s1 s2 else of_char c1 - of_char c2)"

text \<open>
  \<^verbatim>\<open>create_file\<close> of \<^verbatim>\<open>wav-util.c\<close>. The parameter \<open>fopen_w\<close> is what
  \<^verbatim>\<open>fopen(name, "w")\<close> returns: \<open>None\<close> for \<^verbatim>\<open>NULL\<close>.
\<close>

definition create_file_util ::
  "(string \<Rightarrow> out_file option) \<Rightarrow> string \<Rightarrow> wav_header \<Rightarrow> error + out_file" where
  "create_file_util fopen_w name header =
     (case fopen_w name of
        None \<Rightarrow> Inl (CreateFailed name)
      | Some fp \<Rightarrow>
          (case fwrite (encode header) HEADER_SIZE 1 fp of
             (bytes, fp) \<Rightarrow>
               if bytes \<noteq> 1 then Inl (HeaderWriteFailed name bytes) else Inr fp))"

text \<open>
  \<^verbatim>\<open>create_file\<close> of \<^verbatim>\<open>wav-look.c\<close> first changes its copy of the header when the
  name is \<^verbatim>\<open>"sample.wav"\<close>: \<^verbatim>\<open>header.f.sampleRate /= 2\<close>.
\<close>

definition create_file_header :: "string \<Rightarrow> wav_header \<Rightarrow> wav_header" where
  "create_file_header name header =
     (if strcmp name ''sample.wav'' = 0
      then header\<lparr> f := (f header)\<lparr> sampleRate := sampleRate (f header) div 2 \<rparr> \<rparr>
      else header)"

definition create_file_look ::
  "(string \<Rightarrow> out_file option) \<Rightarrow> string \<Rightarrow> wav_header \<Rightarrow> error + out_file" where
  "create_file_look fopen_w name header =
     (let header = create_file_header name header in
      case fopen_w name of
        None \<Rightarrow> Inl (CreateFailed name)
      | Some fp \<Rightarrow>
          (case fwrite (encode header) HEADER_SIZE 1 fp of
             (bytes, fp) \<Rightarrow>
               if bytes \<noteq> 1 then Inl (HeaderWriteFailed name bytes) else Inr fp))"


section \<open>Silencing a section\<close>

text \<open>
  The locals of \<^verbatim>\<open>silence_section\<close>. \<^verbatim>\<open>header.f.bitsPerSample / BITS_PER_BYTE\<close> is a
  division of non-negative \<^verbatim>\<open>int\<close>s, and the division of the \<^verbatim>\<open>uint32_t\<close> chunk size
  by it is unsigned.
\<close>

definition bytes_per_sample :: "wav_header \<Rightarrow> u32" where
  "bytes_per_sample header = ucast (bitsPerSample (f header)) div BITS_PER_BYTE"

definition num_samples :: "wav_header \<Rightarrow> u32" where
  "num_samples header = data_chunk.chunkSize (d header) div bytes_per_sample header"

definition dstart :: "wav_header \<Rightarrow> u32" where
  "dstart header = num_samples header div 2 + num_samples header div D_START"

definition dend :: "wav_header \<Rightarrow> u32" where
  "dend header = num_samples header div 2 + num_samples header div D_END"

text \<open>
  \<^verbatim>\<open>int pos = (block * BLOCK) + i\<close>, computed in 32 bits (two's complement), and compared
  with the unsigned \<open>dstart\<close> and \<open>dend\<close> as an unsigned value.
\<close>

definition pos :: "u32 \<Rightarrow> nat \<Rightarrow> u32" where
  "pos block i = block * word_of_nat BLOCK + word_of_nat i"

definition in_window :: "wav_header \<Rightarrow> u32 \<Rightarrow> bool" where
  "in_window header p = (dstart header \<le> p \<and> p \<le> dend header)"

text \<open>
  \<^verbatim>\<open>silence_section(data, block, header)\<close> returns the buffer it has changed in place.
  A divisor 0 is a division by zero, the first thing the function does. The loop runs
  over the indices below \<open>BLOCK\<close>; the buffer of every caller has \<open>BLOCK\<close> bytes.
\<close>

definition silence_section :: "u8 list \<Rightarrow> u32 \<Rightarrow> wav_header \<Rightarrow> error + u8 list" where
  "silence_section data block header =
     (if bytes_per_sample header = 0 then Inl DivisionByZero
      else Inr (fold (\<lambda>i data. if in_window header (pos block i) then data[i := 0] else data)
                  [0..<BLOCK] data))"


section \<open>Copying the audio data\<close>

text \<open>
  The loop of \<^verbatim>\<open>write_data\<close> in \<^verbatim>\<open>wav-util.c\<close>: read up to \<open>BLOCK\<close> bytes into \<open>data\<close>,
  write the bytes read to \<open>modified\<close>. A failure returns the error with the file as it
  is at the exit, the normal end the file and the number of blocks.
\<close>

function write_data_util_loop ::
  "u8 list \<Rightarrow> u8 list \<Rightarrow> u32 \<Rightarrow> out_file \<Rightarrow> error \<times> out_file + out_file \<times> u32" where
  "write_data_util_loop original data num_blocks modified =
     (case fread 1 BLOCK original of
        (bytes, buf, rest) \<Rightarrow>
          if bytes > 0 then
            (let data = buf @ drop bytes data;
                 num_blocks = num_blocks + 1
             in case fwrite data 1 bytes modified of
                  (data_bytes, modified) \<Rightarrow>
                    if data_bytes \<noteq> bytes
                    then Inl (AudioWriteFailed ''modified.wav'' data_bytes, modified)
                    else write_data_util_loop rest data num_blocks modified)
          else Inr (modified, num_blocks))"
  by pat_completeness auto
termination
  by (relation "measure (\<lambda>(original, data, num_blocks, modified). length original)")
     (auto simp: fread_def BLOCK_def Let_def)

text \<open>
  The buffer comes from \<^verbatim>\<open>calloc\<close>, which is taken to succeed: \<open>BLOCK\<close> zero bytes.
  \<^verbatim>\<open>write_data\<close> of \<^verbatim>\<open>wav-util.c\<close> does not use its header.
\<close>

definition write_data_util ::
  "wav_header \<Rightarrow> u8 list \<Rightarrow> out_file \<Rightarrow> error \<times> out_file + out_file \<times> u32" where
  "write_data_util header original modified =
     write_data_util_loop original (replicate BLOCK 0) 0 modified"

text \<open>
  The loop of \<^verbatim>\<open>write_data\<close> in \<^verbatim>\<open>wav-look.c\<close>. \<^verbatim>\<open>memcpy(silence_data, data, BLOCK)\<close>
  makes the second buffer a copy of the whole first one, and \<^verbatim>\<open>silence_section\<close> is
  called with the block count after its increment. The bytes read go to \<open>sample\<close>
  unchanged, then the same number of bytes of the silenced copy to \<open>silence\<close>.
\<close>

function write_data_look_loop ::
  "wav_header \<Rightarrow> u8 list \<Rightarrow> u8 list \<Rightarrow> u32 \<Rightarrow> out_file \<Rightarrow> out_file
     \<Rightarrow> error \<times> out_file \<times> out_file + out_file \<times> out_file \<times> u32" where
  "write_data_look_loop header original data num_blocks sample silence =
     (case fread 1 BLOCK original of
        (bytes, buf, rest) \<Rightarrow>
          if bytes > 0 then
            (let data = buf @ drop bytes data;
                 num_blocks = num_blocks + 1
             in case silence_section data num_blocks header of
                  Inl e \<Rightarrow> Inl (e, sample, silence)
                | Inr silence_data \<Rightarrow>
                    (case fwrite data 1 bytes sample of
                       (data_bytes, sample) \<Rightarrow>
                         if data_bytes \<noteq> bytes
                         then Inl (AudioWriteFailed ''sample.wav'' data_bytes, sample, silence)
                         else
                           (case fwrite silence_data 1 bytes silence of
                              (data_bytes, silence) \<Rightarrow>
                                if data_bytes \<noteq> bytes
                                then Inl (AudioWriteFailed ''silence.wav'' data_bytes,
                                          sample, silence)
                                else write_data_look_loop header rest data num_blocks
                                       sample silence)))
          else Inr (sample, silence, num_blocks))"
  by pat_completeness auto
termination
  by (relation "measure (\<lambda>(header, original, data, num_blocks, sample, silence).
                  length original)")
     (auto simp: fread_def BLOCK_def Let_def)

definition write_data_look ::
  "wav_header \<Rightarrow> u8 list \<Rightarrow> out_file \<Rightarrow> out_file
     \<Rightarrow> error \<times> out_file \<times> out_file + out_file \<times> out_file \<times> u32" where
  "write_data_look header original sample silence =
     write_data_look_loop header original (replicate BLOCK 0) 0 sample silence"


section \<open>Notions used in the statements\<close>

text \<open>
  A file accepts \<open>n\<close> more bytes when its device has room for them, and \<open>wrote fp bs\<close>
  is the file after the bytes \<open>bs\<close> have gone to it.
\<close>

definition accepts :: "out_file \<Rightarrow> nat \<Rightarrow> bool" where
  "accepts fp n = (case room fp of None \<Rightarrow> True | Some rm \<Rightarrow> n \<le> rm)"

definition wrote :: "out_file \<Rightarrow> u8 list \<Rightarrow> out_file" where
  "wrote fp bs =
     fp\<lparr> contents := contents fp @ bs, room := map_option (\<lambda>rm. rm - length bs) (room fp) \<rparr>"

text \<open>
  The audio data \<open>xs\<close> with every byte zeroed whose position, as \<^verbatim>\<open>silence_section\<close>
  computes it for a byte \<open>k\<close> bytes after the start of block \<open>block\<close>, lies in the
  window.
\<close>

definition silenced :: "wav_header \<Rightarrow> u32 \<Rightarrow> u8 list \<Rightarrow> u8 list" where
  "silenced header block xs =
     map (\<lambda>k. if in_window header (pos block k) then 0 else xs ! k) [0..<length xs]"

text \<open>The number of blocks \<open>n\<close> bytes are read in.\<close>

definition blocks_of :: "nat \<Rightarrow> nat" where
  "blocks_of n = (n + BLOCK - 1) div BLOCK"

text \<open>A new file without a limit, and one whose device accepts \<open>n\<close> bytes.\<close>

definition new_file :: out_file where
  "new_file = \<lparr> contents = [], room = None \<rparr>"

definition limited_file :: "nat \<Rightarrow> out_file" where
  "limited_file n = \<lparr> contents = [], room = Some n \<rparr>"

text \<open>
  A header of 16-bit PCM audio at 44100 Hz with the four tags in place and a data chunk
  of 1,000,000 bytes.
\<close>

definition pcm_header :: wav_header where
  "pcm_header =
     \<lparr> r = \<lparr> riff_chunk.chunkID = tag ''RIFF'', riff_chunk.chunkSize = 1000036,
              format = tag ''WAVE'' \<rparr>,
       f = \<lparr> fmt_chunk.chunkID = tag ''fmt '', fmt_chunk.chunkSize = 16,
              audioFormat = 1, numChannels = 1, sampleRate = 44100, byteRate = 88200,
              blockAlign = 2, bitsPerSample = 16 \<rparr>,
       d = \<lparr> data_chunk.chunkID = tag ''data'', data_chunk.chunkSize = 1000000 \<rparr> \<rparr>"

text \<open>The same header with none of the four tags in place.\<close>

definition junk_header :: wav_header where
  "junk_header =
     pcm_header\<lparr> r := (r pcm_header)\<lparr> riff_chunk.chunkID := tag ''JUNK'', format := tag ''JUNK'' \<rparr>,
                 f := (f pcm_header)\<lparr> fmt_chunk.chunkID := tag ''JUNK'' \<rparr>,
                 d := (d pcm_header)\<lparr> data_chunk.chunkID := tag ''JUNK'' \<rparr> \<rparr>"


text \<open>
  The header of 16-bit audio with 0 in the field for the bits per sample; its four tags
  are in place.
\<close>

definition zero_bits_header :: wav_header where
  "zero_bits_header = pcm_header\<lparr> f := (f pcm_header)\<lparr> bitsPerSample := 0 \<rparr> \<rparr>"


section \<open>The bytes of a header: length and round trip\<close>

lemma length_id_bytes [simp]: "length (id_bytes c) = 4"
  by (cases c) (simp add: id_bytes_def)

lemma length_le16 [simp]: "length (le16 w) = 2"
  by (simp add: le16_def)

lemma length_le32 [simp]: "length (le32 w) = 4"
  by (simp add: le32_def)

lemma rd_id_bytes [simp]: "rd_id (id_bytes c) = c"
  by (cases c) (simp add: rd_id_def id_bytes_def)

lemma rd16_le16 [simp]: "rd16 (le16 w) = w"
proof (rule bit_eqI)
  fix n
  assume "possible_bit TYPE(u16) n"
  then have n: "n < 16" by simp
  consider "n < 8" | "8 \<le> n" by linarith
  then show "bit (rd16 (le16 w)) n = bit w n"
    using n by cases (auto simp: rd16_def le16_def bit_simps)
qed

lemma rd32_le32 [simp]: "rd32 (le32 w) = w"
proof (rule bit_eqI)
  fix n
  assume "possible_bit TYPE(u32) n"
  then have n: "n < 32" by simp
  consider "n < 8" | "8 \<le> n" "n < 16" | "16 \<le> n" "n < 24" | "24 \<le> n"
    by linarith
  then show "bit (rd32 (le32 w)) n = bit w n"
    using n by cases (auto simp: rd32_def le32_def bit_simps)
qed

lemma length_encode_riff [simp]: "length (encode_riff c) = 12"
  by (simp add: encode_riff_def)

lemma length_encode_fmt [simp]: "length (encode_fmt c) = 24"
  by (simp add: encode_fmt_def)

lemma length_encode_data [simp]: "length (encode_data c) = 8"
  by (simp add: encode_data_def)

lemma length_encode [simp]: "length (encode h) = 44"
  by (simp add: encode_def)

lemma decode_encode [simp]: "decode (encode h) = h"
  by (simp add: decode_def encode_def encode_riff_def encode_fmt_def encode_data_def
      slice_def)

lemma HEADER_SIZE_44: "HEADER_SIZE = 44"
  by (simp add: HEADER_SIZE_def wav_header_members_def struct_member_def struct_size_def
      struct_end_def struct_align_def align_up_def riff_chunk_members_def
      fmt_chunk_members_def data_chunk_members_def char_array_def uint16_t_def
      uint32_t_def ID_LEN_def)

lemma field_width_sum_44: "field_width_sum = 44"
  by (simp add: field_width_sum_def riff_chunk_members_def fmt_chunk_members_def
      data_chunk_members_def char_array_def uint16_t_def uint32_t_def ID_LEN_def)

lemma read_header_encode: "read_header (encode h @ rest) = Inr (h, rest)"
  by (simp add: read_header_def fread_def HEADER_SIZE_44)


section \<open>Verification counts every wrong tag\<close>

lemma uint_eqD: "uint (a::u8) = uint b \<Longrightarrow> a = b"
  by (simp add: word_uint_eq_iff)

lemma strncmp_four:
  "strncmp [a0, a1, a2, a3] (b0 # b1 # b2 # b3 # bs) (Suc (Suc (Suc (Suc 0)))) =
     (if a0 \<noteq> b0 then Some (uint a0 - uint b0) else if a0 = 0 then Some 0
      else if a1 \<noteq> b1 then Some (uint a1 - uint b1) else if a1 = 0 then Some 0
      else if a2 \<noteq> b2 then Some (uint a2 - uint b2) else if a2 = 0 then Some 0
      else if a3 \<noteq> b3 then Some (uint a3 - uint b3) else Some 0)"
  by simp

text \<open>
  Against a literal whose first three bytes are not NUL, \<^verbatim>\<open>strncmp\<close> over four bytes
  is 0 exactly when the four bytes are those of the literal.
\<close>

lemma differs_strncmp_four:
  assumes "b0 \<noteq> 0" "b1 \<noteq> 0" "b2 \<noteq> 0"
  shows "differs (strncmp (id_bytes c) (b0 # b1 # b2 # b3 # bs) ID_LEN)
           \<longleftrightarrow> c \<noteq> (b0, b1, b2, b3)"
proof -
  obtain a0 a1 a2 a3 where c: "c = (a0, a1, a2, a3)"
    by (cases c)
  have n: "ID_LEN = Suc (Suc (Suc (Suc 0)))"
    by (simp add: ID_LEN_def)
  show ?thesis
    unfolding c n id_bytes_def prod.case strncmp_four differs_def
    using assms by (auto dest: uint_eqD)
qed

lemma differs_RIFF_ID: "differs (strncmp (id_bytes c) RIFF_ID ID_LEN) \<longleftrightarrow> c \<noteq> tag ''RIFF''"
  by (simp add: RIFF_ID_def cstring_def tag_def differs_strncmp_four)

lemma differs_RIFF_FMT: "differs (strncmp (id_bytes c) RIFF_FMT ID_LEN) \<longleftrightarrow> c \<noteq> tag ''WAVE''"
  by (simp add: RIFF_FMT_def cstring_def tag_def differs_strncmp_four)

lemma differs_FMT_ID: "differs (strncmp (id_bytes c) FMT_ID ID_LEN) \<longleftrightarrow> c \<noteq> tag ''fmt ''"
  by (simp add: FMT_ID_def cstring_def tag_def differs_strncmp_four)

lemma differs_DATA_ID: "differs (strncmp (id_bytes c) DATA_ID ID_LEN) \<longleftrightarrow> c \<noteq> tag ''data''"
  by (simp add: DATA_ID_def cstring_def tag_def differs_strncmp_four)

lemmas differs_tags = differs_RIFF_ID differs_RIFF_FMT differs_FMT_ID differs_DATA_ID

text \<open>The result of \<open>verify_file\<close> is the number of tags that are not in place.\<close>

lemma verify_file_counts:
  "verify_file h =
     int (length (filter id
       [riff_chunk.chunkID (r h) \<noteq> tag ''RIFF'', format (r h) \<noteq> tag ''WAVE'',
        fmt_chunk.chunkID (f h) \<noteq> tag ''fmt '', data_chunk.chunkID (d h) \<noteq> tag ''data'']))"
  by (simp add: verify_file_def differs_tags)

lemma tags_pcm_header:
  "riff_chunk.chunkID (r pcm_header) = tag ''RIFF''" "format (r pcm_header) = tag ''WAVE''"
  "fmt_chunk.chunkID (f pcm_header) = tag ''fmt ''"
  "data_chunk.chunkID (d pcm_header) = tag ''data''"
  by (simp_all add: pcm_header_def)

lemma tags_junk_header:
  "riff_chunk.chunkID (r junk_header) \<noteq> tag ''RIFF''" "format (r junk_header) \<noteq> tag ''WAVE''"
  "fmt_chunk.chunkID (f junk_header) \<noteq> tag ''fmt ''"
  "data_chunk.chunkID (d junk_header) \<noteq> tag ''data''"
  by (simp_all add: junk_header_def tag_def)

text \<open>
  C3. When each of the four tags (RIFF id, RIFF format, fmt id, data id) differs from
  its literal, \<open>verify_file\<close> returns 4: every check is made, none is skipped after an
  earlier one has failed.
\<close>

theorem verify_file_all_wrong:
  assumes "riff_chunk.chunkID (r h) \<noteq> tag ''RIFF''"
    and "format (r h) \<noteq> tag ''WAVE''"
    and "fmt_chunk.chunkID (f h) \<noteq> tag ''fmt ''"
    and "data_chunk.chunkID (d h) \<noteq> tag ''data''"
  shows "verify_file h = 4"
  using assms by (simp add: verify_file_def differs_tags)

theorem verify_file_all_wrong_witness:
  "riff_chunk.chunkID (r junk_header) \<noteq> tag ''RIFF''
     \<and> format (r junk_header) \<noteq> tag ''WAVE''
     \<and> fmt_chunk.chunkID (f junk_header) \<noteq> tag ''fmt ''
     \<and> data_chunk.chunkID (d junk_header) \<noteq> tag ''data''
     \<and> verify_file junk_header = 4"
  using verify_file_all_wrong [of junk_header] by (simp add: tags_junk_header)

text \<open>
  C4. When the four tags are the literals \<^verbatim>\<open>RIFF\<close>, \<^verbatim>\<open>WAVE\<close>, \<^verbatim>\<open>fmt \<close> (with its space)
  and \<^verbatim>\<open>data\<close>, \<open>verify_file\<close> returns 0, whatever the numeric fields hold.
\<close>

theorem verify_file_tags_right:
  assumes "riff_chunk.chunkID (r h) = tag ''RIFF''"
    and "format (r h) = tag ''WAVE''"
    and "fmt_chunk.chunkID (f h) = tag ''fmt ''"
    and "data_chunk.chunkID (d h) = tag ''data''"
  shows "verify_file h = 0"
  using assms by (simp add: verify_file_def differs_tags)

theorem verify_file_tags_right_witness:
  "riff_chunk.chunkID (r pcm_header) = tag ''RIFF''
     \<and> format (r pcm_header) = tag ''WAVE''
     \<and> fmt_chunk.chunkID (f pcm_header) = tag ''fmt ''
     \<and> data_chunk.chunkID (d pcm_header) = tag ''data''
     \<and> verify_file pcm_header = 0"
  using verify_file_tags_right [of pcm_header] by (simp add: tags_pcm_header)


section \<open>Streams and the copy loop of wav-util\<close>

declare write_data_util_loop.simps [simp del]

declare write_data_look_loop.simps [simp del]

lemma fread_block: "fread (Suc 0) BLOCK inp = (min BLOCK (length inp), take BLOCK inp, drop BLOCK inp)"
  by (auto simp: fread_def Let_def min_def)

lemma wrote_Nil [simp]: "wrote fp [] = fp"
  by (simp add: wrote_def option.map_ident)

lemma wrote_wrote [simp]: "wrote (wrote fp xs) ys = wrote fp (xs @ ys)"
  by (cases "room fp") (simp_all add: wrote_def)

lemma contents_wrote [simp]: "contents (wrote fp xs) = contents fp @ xs"
  by (simp add: wrote_def)

lemma room_wrote [simp]: "room (wrote fp xs) = map_option (\<lambda>rm. rm - length xs) (room fp)"
  by (simp add: wrote_def)

lemma accepts_wrote: "accepts fp (length xs + n) \<Longrightarrow> accepts (wrote fp xs) n"
  by (cases "room fp") (auto simp: accepts_def)

lemma accepts_le: "accepts fp n \<Longrightarrow> m \<le> n \<Longrightarrow> accepts fp m"
  by (cases "room fp") (auto simp: accepts_def)

lemma fwrite_all:
  "accepts fp n \<Longrightarrow> n \<le> length buf \<Longrightarrow> fwrite buf (Suc 0) n fp = (n, wrote fp (take n buf))"
  by (cases "room fp") (auto simp: fwrite_def accepts_def wrote_def Let_def min_def)

lemma fwrite_short:
  "room fp = Some rm \<Longrightarrow> rm < n \<Longrightarrow> n \<le> length buf \<Longrightarrow>
   fwrite buf (Suc 0) n fp = (rm, wrote fp (take rm buf))"
  by (auto simp: fwrite_def wrote_def Let_def min_def)

lemma util_Nil: "write_data_util_loop [] data nb modified = Inr (modified, nb)"
  by (simp add: write_data_util_loop.simps fread_block)

lemma util_full:
  assumes "original \<noteq> []" "accepts modified (min BLOCK (length original))"
  shows "write_data_util_loop original data nb modified =
         write_data_util_loop (drop BLOCK original)
           (take BLOCK original @ drop (min BLOCK (length original)) data) (nb + 1)
           (wrote modified (take BLOCK original))"
proof -
  let ?n = "min BLOCK (length original)"
  let ?data = "take BLOCK original @ drop ?n data"
  have n: "0 < ?n" using assms(1) by (simp add: BLOCK_def)
  have w: "fwrite ?data (Suc 0) ?n modified = (?n, wrote modified (take BLOCK original))"
    using fwrite_all [OF assms(2), of ?data] by (simp add: min_def)
  show ?thesis
    using n by (subst write_data_util_loop.simps) (simp add: fread_block w Let_def)
qed

lemma util_short:
  assumes "original \<noteq> []" "room modified = Some rm" "rm < min BLOCK (length original)"
  shows "write_data_util_loop original data nb modified =
         Inl (AudioWriteFailed ''modified.wav'' rm, wrote modified (take rm original))"
proof -
  let ?n = "min BLOCK (length original)"
  let ?data = "take BLOCK original @ drop ?n data"
  have n: "0 < ?n" using assms(1) by (simp add: BLOCK_def)
  have w: "fwrite ?data (Suc 0) ?n modified = (rm, wrote modified (take rm original))"
    using fwrite_short [OF assms(2,3), of ?data] assms(3) by (simp add: min_def split: if_splits)
  have ne: "rm \<noteq> ?n"
    using assms(3) by linarith
  show ?thesis
    using n ne by (subst write_data_util_loop.simps) (simp add: fread_block w Let_def)
qed

lemma blocks_of_0 [simp]: "blocks_of 0 = 0"
  by (simp add: blocks_of_def BLOCK_def)

lemma blocks_of_step: "0 < n \<Longrightarrow> blocks_of n = Suc (blocks_of (n - BLOCK))"
  unfolding blocks_of_def BLOCK_def by (cases "n < 4096") auto

lemma util_all:
  "accepts modified (length original) \<Longrightarrow>
   write_data_util_loop original data nb modified =
     Inr (wrote modified original, nb + word_of_nat (blocks_of (length original)))"
proof (induction original arbitrary: data nb modified rule: length_induct)
  case (1 original)
  show ?case
  proof (cases "original = []")
    case True
    then show ?thesis by (simp add: util_Nil)
  next
    case False
    have a: "accepts modified (min BLOCK (length original))"
      using "1.prems" by (rule accepts_le) simp
    have l: "length (drop BLOCK original) < length original"
      using False by (simp add: BLOCK_def)
    have b: "accepts (wrote modified (take BLOCK original)) (length (drop BLOCK original))"
      using "1.prems" by (intro accepts_wrote) (simp add: min_def)
    show ?thesis
      using "1.IH" [rule_format, OF l b] False
      by (simp add: util_full [OF False a] blocks_of_step)
  qed
qed


section \<open>The silenced copy and the copy loop of wav-look\<close>

lemma length_fold_update [simp]:
  "length (fold (\<lambda>i data. if P i then data[i := z] else data) [0..<n] xs) = length xs"
  by (induction n) simp_all

lemma nth_fold_update:
  "k < length xs \<Longrightarrow>
   fold (\<lambda>i data. if P i then data[i := z] else data) [0..<n] xs ! k =
     (if k < n \<and> P k then z else xs ! k)"
  by (induction n) (auto simp: nth_list_update less_Suc_eq)

lemma length_silenced [simp]: "length (silenced header b xs) = length xs"
  by (simp add: silenced_def)

lemma nth_silenced:
  "k < length xs \<Longrightarrow>
   silenced header b xs ! k = (if in_window header (pos b k) then 0 else xs ! k)"
  by (simp add: silenced_def)

lemma pos_shift: "BLOCK \<le> i \<Longrightarrow> pos (b + 1) (i - BLOCK) = pos b i"
proof -
  assume "BLOCK \<le> i"
  then have "i = BLOCK + (i - BLOCK)" by simp
  then have "(word_of_nat i :: u32) = word_of_nat BLOCK + word_of_nat (i - BLOCK)"
    by (metis of_nat_add)
  then show ?thesis
    by (simp add: pos_def algebra_simps)
qed

lemma silenced_split:
  "silenced header b xs =
     take BLOCK (silenced header b xs) @ silenced header (b + 1) (drop BLOCK xs)"
proof (rule nth_equalityI)
  show "length (silenced header b xs) =
        length (take BLOCK (silenced header b xs) @ silenced header (b + 1) (drop BLOCK xs))"
    by simp
next
  fix i
  assume i: "i < length (silenced header b xs)"
  show "silenced header b xs ! i =
        (take BLOCK (silenced header b xs) @ silenced header (b + 1) (drop BLOCK xs)) ! i"
  proof (cases "i < BLOCK")
    case True
    with i show ?thesis by (simp add: nth_append)
  next
    case False
    then have "BLOCK \<le> i" by simp
    with i show ?thesis
      by (simp add: nth_append nth_silenced pos_shift min_def)
  qed
qed

lemma take_silence_section:
  assumes "bytes_per_sample header \<noteq> 0"
  shows "\<exists>out. silence_section (take BLOCK xs @ ys) b header = Inr out
           \<and> length (take BLOCK xs) \<le> length out
           \<and> take (min BLOCK (length xs)) out = take BLOCK (silenced header b xs)"
proof -
  let ?out = "fold (\<lambda>i data. if in_window header (pos b i) then data[i := 0] else data)
                [0..<BLOCK] (take BLOCK xs @ ys)"
  have "take (min BLOCK (length xs)) ?out = take BLOCK (silenced header b xs)"
    by (rule nth_equalityI) (auto simp: nth_fold_update nth_silenced nth_append)
  then show ?thesis
    using assms by (simp add: silence_section_def)
qed

lemma look_Nil: "write_data_look_loop header [] data nb sample silence = Inr (sample, silence, nb)"
  by (simp add: write_data_look_loop.simps fread_block)

lemma look_trap:
  assumes "original \<noteq> []" "bytes_per_sample header = 0"
  shows "write_data_look_loop header original data nb sample silence =
         Inl (DivisionByZero, sample, silence)"
proof -
  have n: "0 < min BLOCK (length original)"
    using assms(1) by (simp add: BLOCK_def)
  show ?thesis
    using n assms(2)
    by (subst write_data_look_loop.simps) (simp add: fread_block Let_def silence_section_def)
qed

lemma look_sample_short:
  assumes "original \<noteq> []" "bytes_per_sample header \<noteq> 0"
    and "room sample = Some rm" "rm < min BLOCK (length original)"
  shows "write_data_look_loop header original data nb sample silence =
         Inl (AudioWriteFailed ''sample.wav'' rm, wrote sample (take rm original), silence)"
proof -
  let ?n = "min BLOCK (length original)"
  let ?data = "take BLOCK original @ drop ?n data"
  have n: "0 < ?n" using assms(1) by (simp add: BLOCK_def)
  obtain out where out: "silence_section ?data (nb + 1) header = Inr out"
    using take_silence_section [OF assms(2)] by blast
  have w: "fwrite ?data (Suc 0) ?n sample = (rm, wrote sample (take rm original))"
    using fwrite_short [OF assms(3,4), of ?data] assms(4) by (simp add: min_def split: if_splits)
  have ne: "rm \<noteq> ?n"
    using assms(4) by linarith
  show ?thesis
    using n ne
    by (subst write_data_look_loop.simps) (simp add: fread_block out w Let_def)
qed

lemma look_silence_short:
  assumes "original \<noteq> []" "bytes_per_sample header \<noteq> 0"
    and "accepts sample (min BLOCK (length original))"
    and "room silence = Some rm" "rm < min BLOCK (length original)"
  shows "write_data_look_loop header original data nb sample silence =
         Inl (AudioWriteFailed ''silence.wav'' rm, wrote sample (take BLOCK original),
              wrote silence (take rm (silenced header (nb + 1) original)))"
proof -
  let ?n = "min BLOCK (length original)"
  let ?data = "take BLOCK original @ drop ?n data"
  have n: "0 < ?n" using assms(1) by (simp add: BLOCK_def)
  obtain out where out: "silence_section ?data (nb + 1) header = Inr out"
    and len: "length (take BLOCK original) \<le> length out"
    and tk: "take ?n out = take BLOCK (silenced header (nb + 1) original)"
    using take_silence_section [OF assms(2)] by blast
  have w1: "fwrite ?data (Suc 0) ?n sample = (?n, wrote sample (take BLOCK original))"
    using fwrite_all [OF assms(3), of ?data] by (simp add: min_def)
  have rm: "rm \<le> ?n" "rm \<le> BLOCK"
    using assms(5) by simp_all
  have "take rm out = take rm (take ?n out)"
    using rm(1) by (simp only: take_take min_absorb1)
  also have "\<dots> = take rm (take BLOCK (silenced header (nb + 1) original))"
    by (simp only: tk)
  also have "\<dots> = take rm (silenced header (nb + 1) original)"
    using rm(2) by (simp only: take_take min_absorb1)
  finally have tk': "take rm out = take rm (silenced header (nb + 1) original)" .
  have w2: "fwrite out (Suc 0) ?n silence =
            (rm, wrote silence (take rm (silenced header (nb + 1) original)))"
    using fwrite_short [OF assms(4,5), of out] len by (simp add: tk')
  have ne: "rm \<noteq> ?n"
    using assms(5) by linarith
  show ?thesis
    using n ne
    by (subst write_data_look_loop.simps) (simp add: fread_block out w1 w2 Let_def)
qed

lemma look_full:
  assumes "original \<noteq> []" "bytes_per_sample header \<noteq> 0"
    and "accepts sample (min BLOCK (length original))"
    and "accepts silence (min BLOCK (length original))"
  shows "write_data_look_loop header original data nb sample silence =
         write_data_look_loop header (drop BLOCK original)
           (take BLOCK original @ drop (min BLOCK (length original)) data) (nb + 1)
           (wrote sample (take BLOCK original))
           (wrote silence (take BLOCK (silenced header (nb + 1) original)))"
proof -
  let ?n = "min BLOCK (length original)"
  let ?data = "take BLOCK original @ drop ?n data"
  have n: "0 < ?n" using assms(1) by (simp add: BLOCK_def)
  obtain out where out: "silence_section ?data (nb + 1) header = Inr out"
    and len: "length (take BLOCK original) \<le> length out"
    and tk: "take ?n out = take BLOCK (silenced header (nb + 1) original)"
    using take_silence_section [OF assms(2)] by blast
  have w1: "fwrite ?data (Suc 0) ?n sample = (?n, wrote sample (take BLOCK original))"
    using fwrite_all [OF assms(3), of ?data] by (simp add: min_def)
  have w2: "fwrite out (Suc 0) ?n silence =
            (?n, wrote silence (take BLOCK (silenced header (nb + 1) original)))"
    using fwrite_all [OF assms(4), of out] len by (simp add: tk)
  show ?thesis
    using n
    by (subst write_data_look_loop.simps) (simp add: fread_block out w1 w2 Let_def)
qed

lemma look_all:
  "bytes_per_sample header \<noteq> 0 \<Longrightarrow> accepts sample (length original) \<Longrightarrow>
   accepts silence (length original) \<Longrightarrow>
   write_data_look_loop header original data nb sample silence =
     Inr (wrote sample original, wrote silence (silenced header (nb + 1) original),
          nb + word_of_nat (blocks_of (length original)))"
proof (induction original arbitrary: data nb sample silence rule: length_induct)
  case (1 original)
  show ?case
  proof (cases "original = []")
    case True
    then show ?thesis by (simp add: look_Nil silenced_def)
  next
    case False
    have a1: "accepts sample (min BLOCK (length original))"
      using "1.prems"(2) by (rule accepts_le) simp
    have a2: "accepts silence (min BLOCK (length original))"
      using "1.prems"(3) by (rule accepts_le) simp
    have l: "length (drop BLOCK original) < length original"
      using False by (simp add: BLOCK_def)
    have b1: "accepts (wrote sample (take BLOCK original)) (length (drop BLOCK original))"
      using "1.prems"(2) by (intro accepts_wrote) (simp add: min_def)
    have b2: "accepts (wrote silence (take BLOCK (silenced header (nb + 1) original)))
                (length (drop BLOCK original))"
      using "1.prems"(3) by (intro accepts_wrote) (simp add: min_def)
    show ?thesis
      using "1.IH" [rule_format, OF l "1.prems"(1) b1 b2] False
        silenced_split [of header "nb + 1" original]
      by (simp add: look_full [OF False "1.prems"(1) a1 a2] blocks_of_step add.commute)
  qed
qed

lemma BLOCK_pos [simp]: "0 < BLOCK"
  by (simp add: BLOCK_def)

lemma take_block_more:
  "BLOCK \<le> k \<Longrightarrow> take BLOCK xs @ take (k - BLOCK) (drop BLOCK xs) = take k xs"
  using take_add [of BLOCK "k - BLOCK" xs] by simp

lemma take_silenced_more:
  assumes "BLOCK \<le> k"
  shows "take BLOCK (silenced header b xs) @ take (k - BLOCK) (silenced header (b + 1) (drop BLOCK xs))
         = take k (silenced header b xs)"
proof -
  have "drop BLOCK (silenced header b xs) = silenced header (b + 1) (drop BLOCK xs)"
    using silenced_split [of header b xs]
    by (metis append_eq_conv_conj append_take_drop_id)
  then show ?thesis
    using take_block_more [OF assms, of "silenced header b xs"] by simp
qed

lemma util_short_run:
  "room modified = Some rm \<Longrightarrow> rm < length original \<Longrightarrow>
   write_data_util_loop original data nb modified =
     Inl (AudioWriteFailed ''modified.wav'' (rm mod BLOCK), wrote modified (take rm original))"
proof (induction original arbitrary: data nb modified rm rule: length_induct)
  case (1 original)
  from "1.prems"(2) have ne: "original \<noteq> []" by auto
  show ?case
  proof (cases "rm < min BLOCK (length original)")
    case True
    then show ?thesis
      by (simp add: util_short [OF ne "1.prems"(1)])
  next
    case False
    with "1.prems"(2) have ge: "BLOCK \<le> rm" and len: "BLOCK < length original"
      by (auto simp: min_def split: if_splits)
    have a: "accepts modified (min BLOCK (length original))"
      using ge by (simp add: accepts_def "1.prems"(1))
    have l: "length (drop BLOCK original) < length original"
      using ne by simp
    have rm': "room (wrote modified (take BLOCK original)) = Some (rm - BLOCK)"
      using len by (simp add: "1.prems"(1) min_def)
    have lt: "rm - BLOCK < length (drop BLOCK original)"
      using ge "1.prems"(2) by simp
    show ?thesis
      using "1.IH" [rule_format, OF l rm' lt] ge
      by (simp add: util_full [OF ne a] take_block_more le_mod_geq)
  qed
qed

lemma block_le_round_down: "BLOCK \<le> rm \<Longrightarrow> BLOCK \<le> rm - rm mod BLOCK"
proof -
  assume "BLOCK \<le> rm"
  then have "1 \<le> rm div BLOCK"
    by (simp add: div_greater_zero_iff Suc_le_eq)
  then have "BLOCK * 1 \<le> BLOCK * (rm div BLOCK)"
    by (rule mult_le_mono2)
  then show ?thesis
    by (simp add: minus_mod_eq_mult_div mult.commute)
qed

lemma look_sample_short_first:
  "bytes_per_sample header \<noteq> 0 \<Longrightarrow> room sample = Some rm \<Longrightarrow> rm < length original \<Longrightarrow>
   accepts silence (rm - rm mod BLOCK) \<Longrightarrow>
   write_data_look_loop header original data nb sample silence =
     Inl (AudioWriteFailed ''sample.wav'' (rm mod BLOCK), wrote sample (take rm original),
          wrote silence (take (rm - rm mod BLOCK) (silenced header (nb + 1) original)))"
proof (induction original arbitrary: data nb sample silence rm rule: length_induct)
  case (1 original)
  from "1.prems"(3) have ne: "original \<noteq> []" by auto
  show ?case
  proof (cases "rm < min BLOCK (length original)")
    case True
    then show ?thesis
      by (simp add: look_sample_short [OF ne "1.prems"(1,2)])
  next
    case False
    let ?data = "take BLOCK original @ drop (min BLOCK (length original)) data"
    let ?sample = "wrote sample (take BLOCK original)"
    let ?silence = "wrote silence (take BLOCK (silenced header (nb + 1) original))"
    from False "1.prems"(3) have ge: "BLOCK \<le> rm" and len: "BLOCK < length original"
      by (auto simp: min_def split: if_splits)
    have kge: "BLOCK \<le> rm - rm mod BLOCK"
      by (rule block_le_round_down [OF ge])
    have a1: "accepts sample (min BLOCK (length original))"
      using ge by (simp add: accepts_def "1.prems"(2))
    have a2: "accepts silence (min BLOCK (length original))"
      using "1.prems"(4) by (rule accepts_le) (use kge in simp)
    have l: "length (drop BLOCK original) < length original"
      using ne by simp
    have rm': "room ?sample = Some (rm - BLOCK)"
      using len by (simp add: "1.prems"(2) min_def)
    have lt: "rm - BLOCK < length (drop BLOCK original)"
      using ge "1.prems"(3) by simp
    have m: "(rm - BLOCK) mod BLOCK = rm mod BLOCK"
      using ge by (simp add: le_mod_geq)
    have k: "rm - BLOCK - rm mod BLOCK = (rm - rm mod BLOCK) - BLOCK"
      by simp
    have lb: "length (take BLOCK (silenced header (nb + 1) original)) = BLOCK"
      using len by simp
    have "BLOCK + (rm - rm mod BLOCK - BLOCK) = rm - rm mod BLOCK"
      using kge by (rule le_add_diff_inverse)
    then have "accepts silence (length (take BLOCK (silenced header (nb + 1) original))
            + (rm - BLOCK - rm mod BLOCK))"
      unfolding lb k using "1.prems"(4) by (simp only:)
    then have b2: "accepts ?silence (rm - BLOCK - (rm - BLOCK) mod BLOCK)"
      unfolding m by (rule accepts_wrote)
    have step: "write_data_look_loop header original data nb sample silence =
                write_data_look_loop header (drop BLOCK original) ?data (nb + 1) ?sample ?silence"
      by (rule look_full [OF ne "1.prems"(1) a1 a2])
    have ih: "write_data_look_loop header (drop BLOCK original) ?data (nb + 1) ?sample ?silence =
              Inl (AudioWriteFailed ''sample.wav'' (rm mod BLOCK),
                   wrote ?sample (take (rm - BLOCK) (drop BLOCK original)),
                   wrote ?silence (take (rm - BLOCK - rm mod BLOCK)
                     (silenced header (nb + 1 + 1) (drop BLOCK original))))"
      using "1.IH" [rule_format, OF l "1.prems"(1) rm' lt b2] unfolding m .
    have e1: "wrote ?sample (take (rm - BLOCK) (drop BLOCK original)) =
              wrote sample (take rm original)"
      by (simp add: take_block_more [OF ge])
    have e2: "wrote ?silence (take (rm - BLOCK - rm mod BLOCK)
                (silenced header (nb + 1 + 1) (drop BLOCK original))) =
              wrote silence (take (rm - rm mod BLOCK) (silenced header (nb + 1) original))"
      unfolding k wrote_wrote
      by (simp only: take_silenced_more [OF kge])
    show ?thesis
      by (simp only: step ih e1 e2)
  qed
qed

lemma add_min_diff: "(b::nat) \<le> l \<Longrightarrow> b \<le> y \<Longrightarrow> b + min (l - b) (y - b) = min l y"
  by arith

lemma look_silence_short_first:
  "bytes_per_sample header \<noteq> 0 \<Longrightarrow>
   accepts sample (min (length original) (rm - rm mod BLOCK + BLOCK)) \<Longrightarrow>
   room silence = Some rm \<Longrightarrow> rm < length original \<Longrightarrow>
   write_data_look_loop header original data nb sample silence =
     Inl (AudioWriteFailed ''silence.wav'' (rm mod BLOCK),
          wrote sample (take (rm - rm mod BLOCK + BLOCK) original),
          wrote silence (take rm (silenced header (nb + 1) original)))"
proof (induction original arbitrary: data nb sample silence rm rule: length_induct)
  case (1 original)
  from "1.prems"(4) have ne: "original \<noteq> []" by auto
  have "min BLOCK (length original) \<le> rm - rm mod BLOCK + BLOCK"
    by (rule le_trans [OF min.cobounded1 le_add2])
  then have "min BLOCK (length original)
               \<le> min (length original) (rm - rm mod BLOCK + BLOCK)"
    by (intro min.boundedI min.cobounded2)
  with "1.prems"(2) have a1: "accepts sample (min BLOCK (length original))"
    by (rule accepts_le)
  show ?case
  proof (cases "rm < min BLOCK (length original)")
    case True
    then show ?thesis
      by (simp add: look_silence_short [OF ne "1.prems"(1) a1 "1.prems"(3)])
  next
    case False
    let ?data = "take BLOCK original @ drop (min BLOCK (length original)) data"
    let ?sample = "wrote sample (take BLOCK original)"
    let ?silence = "wrote silence (take BLOCK (silenced header (nb + 1) original))"
    from False "1.prems"(4) have ge: "BLOCK \<le> rm" and len: "BLOCK < length original"
      by (auto simp: min_def split: if_splits)
    have kge0: "BLOCK \<le> rm - rm mod BLOCK"
      by (rule block_le_round_down [OF ge])
    have a2: "accepts silence (min BLOCK (length original))"
      using ge by (simp add: accepts_def "1.prems"(3))
    have l: "length (drop BLOCK original) < length original"
      using ne by simp
    have rm': "room ?silence = Some (rm - BLOCK)"
      using len by (simp add: "1.prems"(3) min_def)
    have lt: "rm - BLOCK < length (drop BLOCK original)"
      using ge "1.prems"(4) by simp
    have m: "(rm - BLOCK) mod BLOCK = rm mod BLOCK"
      using ge by (simp add: le_mod_geq)
    have k: "rm - BLOCK - rm mod BLOCK + BLOCK = (rm - rm mod BLOCK + BLOCK) - BLOCK"
      using kge0 by simp
    have kge: "BLOCK \<le> rm - rm mod BLOCK + BLOCK"
      by (rule le_add2)
    have lb: "length (take BLOCK original) = BLOCK"
      using len by simp
    have eq: "length (take BLOCK original)
                + min (length (drop BLOCK original)) (rm - BLOCK - rm mod BLOCK + BLOCK)
              = min (length original) (rm - rm mod BLOCK + BLOCK)"
      unfolding lb length_drop k using len kge by (intro add_min_diff) simp_all
    have "accepts sample (length (take BLOCK original)
            + min (length (drop BLOCK original)) (rm - BLOCK - rm mod BLOCK + BLOCK))"
      unfolding eq by (rule "1.prems"(2))
    then have b1: "accepts ?sample
        (min (length (drop BLOCK original)) (rm - BLOCK - (rm - BLOCK) mod BLOCK + BLOCK))"
      unfolding m by (rule accepts_wrote)
    have step: "write_data_look_loop header original data nb sample silence =
                write_data_look_loop header (drop BLOCK original) ?data (nb + 1) ?sample ?silence"
      by (rule look_full [OF ne "1.prems"(1) a1 a2])
    have ih: "write_data_look_loop header (drop BLOCK original) ?data (nb + 1) ?sample ?silence =
              Inl (AudioWriteFailed ''silence.wav'' (rm mod BLOCK),
                   wrote ?sample (take (rm - BLOCK - rm mod BLOCK + BLOCK)
                     (drop BLOCK original)),
                   wrote ?silence (take (rm - BLOCK)
                     (silenced header (nb + 1 + 1) (drop BLOCK original))))"
      using "1.IH" [rule_format, OF l "1.prems"(1) b1 rm' lt] unfolding m .
    have e1: "wrote ?sample (take (rm - BLOCK - rm mod BLOCK + BLOCK)
                (drop BLOCK original)) =
              wrote sample (take (rm - rm mod BLOCK + BLOCK) original)"
      unfolding k wrote_wrote
      by (simp only: take_block_more [OF kge])
    have e2: "wrote ?silence (take (rm - BLOCK)
                (silenced header (nb + 1 + 1) (drop BLOCK original))) =
              wrote silence (take rm (silenced header (nb + 1) original))"
      unfolding wrote_wrote
      by (simp only: take_silenced_more [OF ge])
    show ?thesis
      by (simp only: step ih e1 e2)
  qed
qed


section \<open>The window of the silenced section\<close>

lemma unat_ucast_16_32: "unat (ucast x :: u32) = unat (x::u16)"
proof -
  have "unat x < 2 ^ 16"
    using unsigned_less [of x] by simp
  then have "unat x < 2 ^ 32"
    by simp
  then show ?thesis
    by (simp add: unsigned_ucast_eq take_bit_nat_eq_self)
qed

lemma bytes_per_sample_nonzero:
  "bytes_per_sample header \<noteq> 0 \<longleftrightarrow> 8 \<le> bitsPerSample (f header)"
  by (simp add: bytes_per_sample_def BITS_PER_BYTE_def word_le_nat_alt unat_div
      unat_ucast_16_32 div_eq_0_iff not_less flip: unat_eq_0)

lemma silence_section_trap:
  "silence_section data block header = Inl DivisionByZero \<longleftrightarrow> bitsPerSample (f header) < 8"
  using bytes_per_sample_nonzero [of header]
  by (auto simp: silence_section_def not_le)

lemma bps_pcm: "bytes_per_sample pcm_header = 2"
  by (simp add: bytes_per_sample_def pcm_header_def BITS_PER_BYTE_def)

lemma ns_pcm: "num_samples pcm_header = 500000"
  by (simp add: num_samples_def bps_pcm) (simp add: pcm_header_def)

lemma dstart_pcm: "dstart pcm_header = 255000"
  by (simp add: dstart_def ns_pcm D_START_def)

lemma dend_pcm: "dend pcm_header = 266666"
  by (simp add: dend_def ns_pcm D_END_def)

lemma unat_pos_1: "k < 1000000 \<Longrightarrow> unat (pos 1 k) = 4096 + k"
proof -
  assume k: "k < 1000000"
  have "pos 1 k = word_of_nat (4096 + k)"
    by (simp add: pos_def BLOCK_def)
  then show ?thesis
    using k by (simp only: unat_of_nat) simp
qed

lemma in_window_pcm:
  "k < 1000000 \<Longrightarrow> in_window pcm_header (pos 1 k) \<longleftrightarrow> 250904 \<le> k \<and> k \<le> 262570"
  by (auto simp: in_window_def dstart_pcm dend_pcm word_le_nat_alt unat_pos_1)

lemma silenced_pcm:
  "length xs = 1000000 \<Longrightarrow>
   silenced pcm_header 1 xs = map (\<lambda>k. if 250904 \<le> k \<and> k \<le> 262570 then 0 else xs ! k) [0..<1000000]"
  by (simp add: silenced_def in_window_pcm)

lemma write_data_look_pcm:
  assumes "length xs = 1000000"
  shows "write_data_look pcm_header xs new_file new_file =
     Inr (wrote new_file xs,
          wrote new_file (map (\<lambda>k. if 250904 \<le> k \<and> k \<le> 262570 then 0 else xs ! k) [0..<1000000]),
          245)"
proof -
  have b: "bytes_per_sample pcm_header \<noteq> 0"
    by (simp add: bps_pcm)
  have a: "accepts new_file (length xs)"
    by (simp add: accepts_def new_file_def)
  have n: "blocks_of (length xs) = 245"
    by (simp add: assms blocks_of_def BLOCK_def)
  show ?thesis
    unfolding write_data_look_def look_all [OF b a a] n
    by (simp add: silenced_pcm [OF assms])
qed


section \<open>A copy that ends normally has copied everything\<close>

lemma not_accepts: "\<not> accepts fp n \<Longrightarrow> \<exists>rm. room fp = Some rm \<and> rm < n"
  by (cases "room fp") (auto simp: accepts_def)

lemma util_Inr:
  "write_data_util_loop original data nb modified = Inr (modified', n) \<Longrightarrow>
   modified' = wrote modified original \<and> n = nb + word_of_nat (blocks_of (length original))"
proof (induction original arbitrary: data nb modified rule: length_induct)
  case (1 original)
  show ?case
  proof (cases "original = []")
    case True
    with "1.prems" show ?thesis by (simp add: util_Nil)
  next
    case False
    show ?thesis
    proof (cases "accepts modified (min BLOCK (length original))")
      case True
      have l: "length (drop BLOCK original) < length original"
        using False by simp
      have "write_data_util_loop (drop BLOCK original)
              (take BLOCK original @ drop (min BLOCK (length original)) data) (nb + 1)
              (wrote modified (take BLOCK original)) = Inr (modified', n)"
        using "1.prems" by (simp only: util_full [OF False True])
      from "1.IH" [rule_format, OF l this] False show ?thesis
        by (simp add: blocks_of_step)
    next
      case False
      then obtain rm where "room modified = Some rm" "rm < min BLOCK (length original)"
        using not_accepts by blast
      with "1.prems" \<open>original \<noteq> []\<close> show ?thesis
        by (simp add: util_short)
    qed
  qed
qed

lemma look_Inr:
  "write_data_look_loop header original data nb sample silence = Inr (sample', silence', n) \<Longrightarrow>
   sample' = wrote sample original
     \<and> silence' = wrote silence (silenced header (nb + 1) original)
     \<and> n = nb + word_of_nat (blocks_of (length original))"
proof (induction original arbitrary: data nb sample silence rule: length_induct)
  case (1 original)
  show ?case
  proof (cases "original = []")
    case True
    with "1.prems" show ?thesis by (simp add: look_Nil silenced_def)
  next
    case ne: False
    have b: "bytes_per_sample header \<noteq> 0"
      using "1.prems" look_trap [OF ne] by fastforce
    have a1: "accepts sample (min BLOCK (length original))"
    proof (rule ccontr)
      assume "\<not> accepts sample (min BLOCK (length original))"
      then obtain rm where "room sample = Some rm" "rm < min BLOCK (length original)"
        using not_accepts by blast
      with "1.prems" show False
        by (simp add: look_sample_short [OF ne b])
    qed
    have a2: "accepts silence (min BLOCK (length original))"
    proof (rule ccontr)
      assume "\<not> accepts silence (min BLOCK (length original))"
      then obtain rm where "room silence = Some rm" "rm < min BLOCK (length original)"
        using not_accepts by blast
      with "1.prems" show False
        by (simp add: look_silence_short [OF ne b a1])
    qed
    have l: "length (drop BLOCK original) < length original"
      using ne by simp
    have "write_data_look_loop header (drop BLOCK original)
            (take BLOCK original @ drop (min BLOCK (length original)) data) (nb + 1)
            (wrote sample (take BLOCK original))
            (wrote silence (take BLOCK (silenced header (nb + 1) original)))
          = Inr (sample', silence', n)"
      using "1.prems" by (simp only: look_full [OF ne b a1 a2])
    from "1.IH" [rule_format, OF l this] ne silenced_split [of header "nb + 1" original]
    show ?thesis
      by (simp add: blocks_of_step)
  qed
qed


section \<open>Creating files, and runs that end early\<close>

lemma fwrite_items:
  "accepts fp (sz * n) \<Longrightarrow> sz * n \<le> length buf \<Longrightarrow> 0 < sz \<Longrightarrow>
   fwrite buf sz n fp = (n, wrote fp (take (sz * n) buf))"
  by (cases "room fp") (auto simp: fwrite_def accepts_def wrote_def Let_def min_def)

lemma create_file_header_sample:
  "create_file_header sample_name h = h\<lparr> f := (f h)\<lparr> sampleRate := sampleRate (f h) div 2 \<rparr> \<rparr>"
  by (simp add: create_file_header_def sample_name_def)

lemma create_file_header_silence: "create_file_header silence_name h = h"
  by (simp add: create_file_header_def silence_name_def)

lemma create_file_look_ok:
  "fopen_w name = Some fp \<Longrightarrow> accepts fp HEADER_SIZE \<Longrightarrow>
   create_file_look fopen_w name h = Inr (wrote fp (encode (create_file_header name h)))"
  by (simp add: create_file_look_def fwrite_items HEADER_SIZE_44)

lemma create_file_util_ok:
  "fopen_w name = Some fp \<Longrightarrow> accepts fp HEADER_SIZE \<Longrightarrow>
   create_file_util fopen_w name h = Inr (wrote fp (encode h))"
  by (simp add: create_file_util_def fwrite_items HEADER_SIZE_44)

lemma encode_sampleRate:
  "encode (h\<lparr> f := (f h)\<lparr> sampleRate := w \<rparr> \<rparr>) = take 24 (encode h) @ le32 w @ drop 28 (encode h)"
  by (simp add: encode_def encode_fmt_def)

lemma accepts_new_file [simp]: "accepts new_file n"
  by (simp add: accepts_def new_file_def)

lemma room_limited_file [simp]: "room (limited_file n) = Some n"
  by (simp add: limited_file_def)


lemma round_down_step:
  assumes "rl < rs - rs mod BLOCK"
  shows "rl - rl mod BLOCK + BLOCK \<le> rs - rs mod BLOCK"
proof -
  have "rl < rs div BLOCK * BLOCK"
    using assms by (simp add: minus_mod_eq_div_mult)
  then have "rl div BLOCK < rs div BLOCK"
    by (rule less_mult_imp_div_less)
  then have "Suc (rl div BLOCK) \<le> rs div BLOCK"
    by simp
  then have "Suc (rl div BLOCK) * BLOCK \<le> rs div BLOCK * BLOCK"
    by (rule mult_le_mono1)
  then show ?thesis
    by (simp add: minus_mod_eq_div_mult)
qed

lemma look_some_short:
  assumes b: "bytes_per_sample header \<noteq> 0"
    and short: "\<not> accepts sample (length original) \<or> \<not> accepts silence (length original)"
  shows "\<exists>rm. write_data_look_loop header original data nb sample silence
             = Inl (AudioWriteFailed ''sample.wav'' (rm mod BLOCK),
                    wrote sample (take rm original),
                    wrote silence (take (rm - rm mod BLOCK) (silenced header (nb + 1) original)))
           \<or> write_data_look_loop header original data nb sample silence
             = Inl (AudioWriteFailed ''silence.wav'' (rm mod BLOCK),
                    wrote sample (take (rm - rm mod BLOCK + BLOCK) original),
                    wrote silence (take rm (silenced header (nb + 1) original)))"
proof (cases "accepts sample (length original)")
  case True
  with short obtain rl where rl: "room silence = Some rl" "rl < length original"
    using not_accepts by blast
  have "accepts sample (min (length original) (rl - rl mod BLOCK + BLOCK))"
    using True by (rule accepts_le) simp
  from look_silence_short_first [OF b this rl] show ?thesis
    by blast
next
  case False
  then obtain rs where rs: "room sample = Some rs" "rs < length original"
    using not_accepts by blast
  show ?thesis
  proof (cases "accepts silence (rs - rs mod BLOCK)")
    case True
    from look_sample_short_first [OF b rs True] show ?thesis
      by blast
  next
    case False
    then obtain rl where rl: "room silence = Some rl" "rl < rs - rs mod BLOCK"
      using not_accepts by blast
    have lt: "rl < length original"
      using rl(2) rs(2) by simp
    have "rl - rl mod BLOCK + BLOCK \<le> rs"
      using round_down_step [OF rl(2)] by simp
    then have "accepts sample (rl - rl mod BLOCK + BLOCK)"
      by (simp add: accepts_def rs(1))
    then have "accepts sample (min (length original) (rl - rl mod BLOCK + BLOCK))"
      by (rule accepts_le) simp
    from look_silence_short_first [OF b this rl(1) lt] show ?thesis
      by blast
  qed
qed

lemma accepts_limited_file [simp]: "accepts (limited_file n) m \<longleftrightarrow> m \<le> n"
  by (simp add: accepts_def limited_file_def)

lemma silenced_pcm_9000: "silenced pcm_header 1 (replicate 9000 255) = replicate 9000 255"
  by (rule nth_equalityI) (simp_all add: nth_silenced in_window_pcm)

lemma look_trap_run:
  "bytes_per_sample header = 0 \<Longrightarrow> original \<noteq> [] \<Longrightarrow>
   write_data_look header original sample silence = Inl (DivisionByZero, sample, silence)"
  by (simp add: write_data_look_def look_trap)

lemma bps_zero_bits: "bytes_per_sample zero_bits_header = 0"
  by (simp add: bytes_per_sample_def zero_bits_header_def BITS_PER_BYTE_def)

lemma verify_zero_bits: "verify_file zero_bits_header = 0"
  by (simp add: verify_file_counts zero_bits_header_def pcm_header_def)


section \<open>The header in a file\<close>

text \<open>
  C2. Decoding the bytes that encoding a header produces gives the header back, for every
  header value. In the program, \<^verbatim>\<open>create_file\<close> writes these bytes to the new file, and
  reading a header from a stream that starts with them gives the header back and leaves
  the audio data that follows.
\<close>

theorem decode_encode_roundtrip:
  "decode (encode h) = h
     \<and> create_file_util (\<lambda>name. Some new_file) modified_name h
           = Inr (wrote new_file (encode h))
     \<and> read_header (encode h @ rest) = Inr (h, rest)"
  by (simp add: read_header_encode create_file_util_ok)

text \<open>
  C8. The bytes of every header are exactly 44, which is the size \<open>HEADER_SIZE\<close> of the
  one read and the one write of a header; that size, computed from the members with
  their alignment, is the sum of the widths of the fields, so no byte of padding lies
  between or after them.
\<close>

theorem header_size_is_field_sum:
  "length (encode h) = 44 \<and> length (encode h) = HEADER_SIZE
     \<and> HEADER_SIZE = field_width_sum
     \<and> field_width_sum = (4 + 4 + 4) + (4 + 4 + 2 + 2 + 4 + 4 + 2 + 2) + (4 + 4)"
  by (simp add: HEADER_SIZE_44 field_width_sum_44)


section \<open>The silence window on a file of 1,000,000 bytes\<close>

text \<open>
  C1. With a data chunk of 1,000,000 bytes and 16 bits per sample the window is
  \<open>dstart = 255000\<close> to \<open>dend = 266666\<close>, and the claim is that the silenced copy has
  zeroes at exactly the offsets 255000 to 266666 of the audio data and the bytes of the
  input at 254999 and 266667. \<^verbatim>\<open>write_data\<close> passes the block count after its increment,
  so the first block is block 1 and the position \<^verbatim>\<open>silence_section\<close> computes for a byte
  is its offset plus \<open>BLOCK\<close>: on audio data of 1,000,000 bytes \<^verbatim>\<open>0xFF\<close> the copy to
  \<^verbatim>\<open>sample.wav\<close> is the input, and \<^verbatim>\<open>silence.wav\<close> has its zeroes from offset 250904 to
  262570. The byte at 254999 is zeroed, the bytes from 262571 to 266666 are not.
\<close>

theorem silence_window_one_block_early:
  "\<exists>sample silence n.
     write_data_look pcm_header (replicate 1000000 255) new_file new_file = Inr (sample, silence, n)
       \<and> contents sample = replicate 1000000 255
       \<and> contents silence ! 250903 = 255 \<and> contents silence ! 250904 = 0
       \<and> contents silence ! 254999 = 0 \<and> contents silence ! 255000 = 0
       \<and> contents silence ! 262570 = 0 \<and> contents silence ! 262571 = 255
       \<and> contents silence ! 266666 = 255 \<and> contents silence ! 266667 = 255"
proof -
  have c: "contents new_file = []"
    by (simp add: new_file_def)
  show ?thesis
    by (subst write_data_look_pcm) (simp_all add: c)
qed


section \<open>The copy of the audio data\<close>

text \<open>
  C5. The copy without a change writes the audio data as it is, whatever its length:
  \<^verbatim>\<open>write_data\<close> of \<^verbatim>\<open>wav-util.c\<close> leaves \<open>modified\<close> with the input appended when the
  file accepts that many bytes, for every header; \<^verbatim>\<open>write_data\<close> of \<^verbatim>\<open>wav-look.c\<close> does
  so for \<open>sample\<close> when both files accept them and the header has at least 8 bits per
  sample. The input is read in \<open>blocks_of (length original)\<close> blocks, the last one as
  short as the bytes left, and nothing is added to it.
\<close>

theorem pass_through_copy_identical:
  "(accepts modified (length original) \<longrightarrow>
      write_data_util header original modified
        = Inr (wrote modified original, word_of_nat (blocks_of (length original))))
   \<and> (8 \<le> bitsPerSample (f header) \<and> accepts sample (length original)
        \<and> accepts silence (length original) \<longrightarrow>
      (\<exists>silence'. write_data_look header original sample silence
         = Inr (wrote sample original, silence', word_of_nat (blocks_of (length original)))))"
  by (simp add: write_data_util_def util_all write_data_look_def look_all
      bytes_per_sample_nonzero)

theorem pass_through_copy_identical_witness:
  "accepts new_file (length (replicate (4096 * 3 + 37) (255::u8)))
     \<and> 8 \<le> bitsPerSample (f pcm_header)
     \<and> write_data_util pcm_header (replicate (4096 * 3 + 37) 255) new_file
          = Inr (wrote new_file (replicate (4096 * 3 + 37) 255), 4)
     \<and> (\<exists>silence'. write_data_look pcm_header (replicate (4096 * 3 + 37) 255) new_file new_file
          = Inr (wrote new_file (replicate (4096 * 3 + 37) 255), silence', 4))
     \<and> length (contents (wrote new_file (replicate (4096 * 3 + 37) (255::u8)))) = 12325"
proof -
  have b: "8 \<le> bitsPerSample (f pcm_header)"
    by (simp add: pcm_header_def)
  have n: "blocks_of (length (replicate (4096 * 3 + 37) (255::u8))) = 4"
    by (simp add: blocks_of_def BLOCK_def)
  have c: "contents new_file = []"
    by (simp add: new_file_def)
  show ?thesis
    using b pass_through_copy_identical
      [of new_file "replicate (4096 * 3 + 37) 255" pcm_header new_file new_file]
    unfolding n by (simp add: c)
qed

text \<open>
  Without the bound on the bits per sample the statement fails for \<^verbatim>\<open>wav-look.c\<close>: the
  header \<open>zero_bits_header\<close> passes \<open>verify_file\<close>, and on three bytes of audio data
  \<^verbatim>\<open>silence_section\<close> divides by zero before the first write, so \<open>sample\<close> is left
  without them.
\<close>

theorem pass_through_copy_lost_at_zero_bits:
  "verify_file zero_bits_header = 0
     \<and> accepts new_file (length [1, 2, 3 :: u8])
     \<and> write_data_look zero_bits_header [1, 2, 3] new_file new_file
          = Inl (DivisionByZero, new_file, new_file)
     \<and> contents new_file \<noteq> [1, 2, 3]"
  by (simp add: verify_zero_bits look_trap_run bps_zero_bits) (simp add: new_file_def)

text \<open>
  C6. For a header with the sample rate 44100, the header \<^verbatim>\<open>create_file\<close> writes to
  \<^verbatim>\<open>sample.wav\<close> has the sample rate 22050 and every other field as it was: its bytes
  differ from those of the input header in the four bytes at offset 24 only. When the
  header has at least 8 bits per sample, the audio data \<^verbatim>\<open>write_data\<close> writes to
  \<open>sample\<close> is the input.
\<close>

theorem half_speed_header_keeps_the_rest:
  assumes "sampleRate (f h) = 44100"
  shows "create_file_header sample_name h = h\<lparr> f := (f h)\<lparr> sampleRate := 22050 \<rparr> \<rparr>
     \<and> encode (create_file_header sample_name h)
           = take 24 (encode h) @ le32 22050 @ drop 28 (encode h)
     \<and> (fopen_w sample_name = Some fp \<and> accepts fp HEADER_SIZE \<longrightarrow>
           create_file_look fopen_w sample_name h
             = Inr (wrote fp (encode (h\<lparr> f := (f h)\<lparr> sampleRate := 22050 \<rparr> \<rparr>))))
     \<and> (8 \<le> bitsPerSample (f h) \<and> accepts sample (length payload)
            \<and> accepts silence (length payload) \<longrightarrow>
           (\<exists>silence' n. write_data_look h payload sample silence
              = Inr (wrote sample payload, silence', n)))"
proof -
  have hdr: "create_file_header sample_name h = h\<lparr> f := (f h)\<lparr> sampleRate := 22050 \<rparr> \<rparr>"
    by (simp add: create_file_header_sample assms)
  have enc: "encode (create_file_header sample_name h)
           = take 24 (encode h) @ le32 22050 @ drop 28 (encode h)"
    unfolding hdr by (rule encode_sampleRate)
  have cr: "fopen_w sample_name = Some fp \<and> accepts fp HEADER_SIZE \<longrightarrow>
           create_file_look fopen_w sample_name h
             = Inr (wrote fp (encode (h\<lparr> f := (f h)\<lparr> sampleRate := 22050 \<rparr> \<rparr>)))"
    using create_file_look_ok [of fopen_w sample_name fp h] by (simp add: hdr)
  have run: "8 \<le> bitsPerSample (f h) \<and> accepts sample (length payload)
            \<and> accepts silence (length payload) \<longrightarrow>
           (\<exists>silence' n. write_data_look h payload sample silence
              = Inr (wrote sample payload, silence', n))"
    by (simp add: write_data_look_def look_all bytes_per_sample_nonzero)
  from hdr enc cr run show ?thesis
    by (intro conjI)
qed

theorem half_speed_header_keeps_the_rest_witness:
  "sampleRate (f pcm_header) = 44100
     \<and> create_file_header sample_name pcm_header
          = pcm_header\<lparr> f := (f pcm_header)\<lparr> sampleRate := 22050 \<rparr> \<rparr>
     \<and> accepts new_file HEADER_SIZE \<and> 8 \<le> bitsPerSample (f pcm_header)
     \<and> create_file_look (\<lambda>name. Some new_file) sample_name pcm_header
          = Inr (wrote new_file (encode (pcm_header\<lparr> f := (f pcm_header)\<lparr> sampleRate := 22050 \<rparr> \<rparr>)))
     \<and> (\<exists>silence' n. write_data_look pcm_header (replicate 9000 255) new_file new_file
          = Inr (wrote new_file (replicate 9000 255), silence', n))"
proof -
  have a: "sampleRate (f pcm_header) = 44100"
    by (simp add: pcm_header_def)
  have b: "8 \<le> bitsPerSample (f pcm_header)"
    by (simp add: pcm_header_def)
  show ?thesis
    using a b
      half_speed_header_keeps_the_rest
        [OF a, of "\<lambda>name. Some new_file" new_file new_file "replicate 9000 255" new_file]
    by simp
qed

text \<open>
  Without the bound on the bits per sample the part on the audio data fails:
  \<open>zero_bits_header\<close> has the sample rate 44100 and passes \<open>verify_file\<close>, both files
  are created with their headers, and \<^verbatim>\<open>write_data\<close> ends in the division by zero with
  the 44 bytes of the header as all that \<^verbatim>\<open>sample.wav\<close> holds.
\<close>

theorem half_speed_payload_lost_at_zero_bits:
  "sampleRate (f zero_bits_header) = 44100
     \<and> verify_file zero_bits_header = 0
     \<and> create_file_look (\<lambda>name. Some new_file) sample_name zero_bits_header
          = Inr (wrote new_file (encode (create_file_header sample_name zero_bits_header)))
     \<and> create_file_look (\<lambda>name. Some new_file) silence_name zero_bits_header
          = Inr (wrote new_file (encode zero_bits_header))
     \<and> write_data_look zero_bits_header (replicate 9000 255)
          (wrote new_file (encode (create_file_header sample_name zero_bits_header)))
          (wrote new_file (encode zero_bits_header))
          = Inl (DivisionByZero,
                 wrote new_file (encode (create_file_header sample_name zero_bits_header)),
                 wrote new_file (encode zero_bits_header))
     \<and> length (contents (wrote new_file (encode (create_file_header sample_name zero_bits_header))))
          = 44"
proof -
  have a: "sampleRate (f zero_bits_header) = 44100"
    by (simp add: zero_bits_header_def pcm_header_def)
  have c: "contents new_file = []"
    by (simp add: new_file_def)
  show ?thesis
    by (simp add: a c verify_zero_bits look_trap_run bps_zero_bits create_file_look_ok
        create_file_header_silence)
qed

text \<open>
  C7. When an output file accepts fewer bytes than a block write asks for, the copy ends
  at that block with the error that names the file and gives the count \<^verbatim>\<open>fwrite\<close>
  returned. The file has the bytes it accepted and no more. In \<^verbatim>\<open>wav-look.c\<close>, when
  \<open>sample\<close> is the first to be short, \<open>silence\<close> has the blocks before that one only
  (they are all it needs room for); when \<open>silence\<close> is the first, \<open>sample\<close> has the blocks
  up to that one and none after it. Whenever one of the two files, or both, have less
  room than the audio data, the run ends in one of these two ways.
\<close>

theorem short_write_stops_the_copy:
  "(room modified = Some rm \<and> rm < length original \<longrightarrow>
      write_data_util header original modified
        = Inl (AudioWriteFailed ''modified.wav'' (rm mod BLOCK),
               wrote modified (take rm original)))
   \<and> (bytes_per_sample header \<noteq> 0 \<and> room sample = Some rm \<and> rm < length original
        \<and> accepts silence (rm - rm mod BLOCK) \<longrightarrow>
      write_data_look header original sample silence
        = Inl (AudioWriteFailed ''sample.wav'' (rm mod BLOCK),
               wrote sample (take rm original),
               wrote silence (take (rm - rm mod BLOCK) (silenced header 1 original))))
   \<and> (bytes_per_sample header \<noteq> 0
        \<and> accepts sample (min (length original) (rm - rm mod BLOCK + BLOCK))
        \<and> room silence = Some rm \<and> rm < length original \<longrightarrow>
      write_data_look header original sample silence
        = Inl (AudioWriteFailed ''silence.wav'' (rm mod BLOCK),
               wrote sample (take (rm - rm mod BLOCK + BLOCK) original),
               wrote silence (take rm (silenced header 1 original))))
   \<and> (bytes_per_sample header \<noteq> 0
        \<and> (\<not> accepts sample (length original) \<or> \<not> accepts silence (length original)) \<longrightarrow>
      (\<exists>k. write_data_look header original sample silence
             = Inl (AudioWriteFailed ''sample.wav'' (k mod BLOCK),
                    wrote sample (take k original),
                    wrote silence (take (k - k mod BLOCK) (silenced header 1 original)))
           \<or> write_data_look header original sample silence
             = Inl (AudioWriteFailed ''silence.wav'' (k mod BLOCK),
                    wrote sample (take (k - k mod BLOCK + BLOCK) original),
                    wrote silence (take k (silenced header 1 original)))))"
proof (intro conjI impI)
  assume "room modified = Some rm \<and> rm < length original"
  then show "write_data_util header original modified
        = Inl (AudioWriteFailed ''modified.wav'' (rm mod BLOCK),
               wrote modified (take rm original))"
    by (simp add: write_data_util_def util_short_run)
next
  assume "bytes_per_sample header \<noteq> 0 \<and> room sample = Some rm \<and> rm < length original
        \<and> accepts silence (rm - rm mod BLOCK)"
  then show "write_data_look header original sample silence
        = Inl (AudioWriteFailed ''sample.wav'' (rm mod BLOCK),
               wrote sample (take rm original),
               wrote silence (take (rm - rm mod BLOCK) (silenced header 1 original)))"
    using look_sample_short_first [of header sample rm original silence "replicate BLOCK 0" 0]
    by (simp add: write_data_look_def)
next
  assume "bytes_per_sample header \<noteq> 0
        \<and> accepts sample (min (length original) (rm - rm mod BLOCK + BLOCK))
        \<and> room silence = Some rm \<and> rm < length original"
  then show "write_data_look header original sample silence
        = Inl (AudioWriteFailed ''silence.wav'' (rm mod BLOCK),
               wrote sample (take (rm - rm mod BLOCK + BLOCK) original),
               wrote silence (take rm (silenced header 1 original)))"
    using look_silence_short_first [of header sample original rm silence "replicate BLOCK 0" 0]
    by (simp add: write_data_look_def)
next
  assume "bytes_per_sample header \<noteq> 0
        \<and> (\<not> accepts sample (length original) \<or> \<not> accepts silence (length original))"
  then show "\<exists>k. write_data_look header original sample silence
             = Inl (AudioWriteFailed ''sample.wav'' (k mod BLOCK),
                    wrote sample (take k original),
                    wrote silence (take (k - k mod BLOCK) (silenced header 1 original)))
           \<or> write_data_look header original sample silence
             = Inl (AudioWriteFailed ''silence.wav'' (k mod BLOCK),
                    wrote sample (take (k - k mod BLOCK + BLOCK) original),
                    wrote silence (take k (silenced header 1 original)))"
    using look_some_short [of header sample original silence "replicate BLOCK 0" 0]
    by (simp add: write_data_look_def)
qed

theorem short_write_stops_the_copy_witness:
  "room (limited_file 4100) = Some 4100 \<and> 4100 < length (replicate 9000 (255::u8))
     \<and> bytes_per_sample pcm_header \<noteq> 0
     \<and> write_data_util pcm_header (replicate 9000 255) (limited_file 4100)
          = Inl (AudioWriteFailed ''modified.wav'' 4,
                 wrote (limited_file 4100) (replicate 4100 255))
     \<and> accepts (limited_file 5000) (4100 - 4100 mod BLOCK)
     \<and> write_data_look pcm_header (replicate 9000 255) (limited_file 4100) (limited_file 5000)
          = Inl (AudioWriteFailed ''sample.wav'' 4,
                 wrote (limited_file 4100) (replicate 4100 255),
                 wrote (limited_file 5000) (replicate 4096 255))
     \<and> room (limited_file 100) = Some 100 \<and> 100 < length (replicate 9000 (255::u8))
     \<and> accepts (limited_file 5000) (min (length (replicate 9000 (255::u8))) (100 - 100 mod BLOCK + BLOCK))
     \<and> \<not> accepts (limited_file 5000) (length (replicate 9000 (255::u8)))
     \<and> write_data_look pcm_header (replicate 9000 255) (limited_file 5000) (limited_file 100)
          = Inl (AudioWriteFailed ''silence.wav'' 100,
                 wrote (limited_file 5000) (replicate 4096 255),
                 wrote (limited_file 100) (replicate 100 255))"
proof -
  have b: "bytes_per_sample pcm_header \<noteq> 0"
    by (simp add: bps_pcm)
  show ?thesis
    using b
      short_write_stops_the_copy
        [of "limited_file 4100" 4100 "replicate 9000 255" pcm_header "limited_file 4100"
          "limited_file 5000"]
      short_write_stops_the_copy
        [of "limited_file 100" 100 "replicate 9000 255" pcm_header "limited_file 5000"
          "limited_file 100"]
    by (simp add: silenced_pcm_9000 BLOCK_def)
qed


section \<open>The silenced block\<close>

text \<open>
  C9. From 8 bits per sample on, the divisor \<open>bytes_per_sample\<close> is not 0 and
  \<^verbatim>\<open>silence_section\<close> returns a block; below 8 bits the division is by zero. A header can
  pass \<open>verify_file\<close> and have fewer than 8 bits per sample: the verification looks at
  the four tags only.
\<close>

theorem silence_section_total_from_8_bits:
  "(8 \<le> bitsPerSample (f header) \<longrightarrow>
      bytes_per_sample header \<noteq> 0
        \<and> (\<exists>out. silence_section data block header = Inr out \<and> length out = length data))
   \<and> (bitsPerSample (f header) < 8 \<longrightarrow> silence_section data block header = Inl DivisionByZero)
   \<and> (\<exists>h. verify_file h = 0 \<and> bitsPerSample (f h) < 8
          \<and> silence_section data block h = Inl DivisionByZero)"
proof (intro conjI impI)
  assume "8 \<le> bitsPerSample (f header)"
  then show "bytes_per_sample header \<noteq> 0"
    by (simp add: bytes_per_sample_nonzero)
  then show "\<exists>out. silence_section data block header = Inr out \<and> length out = length data"
    by (simp add: silence_section_def)
next
  assume "bitsPerSample (f header) < 8"
  then show "silence_section data block header = Inl DivisionByZero"
    by (simp add: silence_section_trap)
next
  let ?h = "pcm_header\<lparr> f := (f pcm_header)\<lparr> bitsPerSample := 0 \<rparr> \<rparr>"
  have "verify_file ?h = 0"
    by (simp add: verify_file_counts pcm_header_def)
  moreover have "bitsPerSample (f ?h) < 8"
    by simp
  ultimately show "\<exists>h. verify_file h = 0 \<and> bitsPerSample (f h) < 8
      \<and> silence_section data block h = Inl DivisionByZero"
    using silence_section_trap by blast
qed

theorem silence_section_total_from_8_bits_witness:
  "8 \<le> bitsPerSample (f pcm_header) \<and> bytes_per_sample pcm_header \<noteq> 0
     \<and> (\<exists>out. silence_section (replicate BLOCK 255) 1 pcm_header = Inr out
           \<and> length out = length (replicate BLOCK (255::u8)))
     \<and> bitsPerSample (f (pcm_header\<lparr> f := (f pcm_header)\<lparr> bitsPerSample := 7 \<rparr> \<rparr>)) < 8
     \<and> silence_section (replicate BLOCK 255) 1
           (pcm_header\<lparr> f := (f pcm_header)\<lparr> bitsPerSample := 7 \<rparr> \<rparr>) = Inl DivisionByZero"
proof -
  have a: "8 \<le> bitsPerSample (f pcm_header)"
    by (simp add: pcm_header_def)
  have b: "bitsPerSample (f (pcm_header\<lparr> f := (f pcm_header)\<lparr> bitsPerSample := 7 \<rparr> \<rparr>)) < 8"
    by simp
  show ?thesis
    using a b silence_section_total_from_8_bits [of pcm_header "replicate BLOCK 255" 1]
      silence_section_total_from_8_bits
        [of "pcm_header\<lparr> f := (f pcm_header)\<lparr> bitsPerSample := 7 \<rparr> \<rparr>" "replicate BLOCK 255" 1]
    by blast
qed

text \<open>
  C10. With bytes per sample that are not 0, for every buffer and every block number,
  each byte of the result of \<^verbatim>\<open>silence_section\<close> is 0 or the byte of the input at the
  same index; a byte whose position \<open>pos block i\<close> is outside the window from \<open>dstart\<close>
  to \<open>dend\<close> is the byte of the input, and a byte of the block inside the window is 0.
\<close>

theorem silence_section_zero_or_unchanged:
  assumes "bytes_per_sample header \<noteq> 0"
  shows "\<exists>out. silence_section data block header = Inr out \<and> length out = length data
           \<and> (\<forall>i < length data.
                 (out ! i = 0 \<or> out ! i = data ! i)
                   \<and> (\<not> in_window header (pos block i) \<longrightarrow> out ! i = data ! i)
                   \<and> (i < BLOCK \<and> in_window header (pos block i) \<longrightarrow> out ! i = 0))"
  using assms by (simp add: silence_section_def nth_fold_update)

theorem silence_section_zero_or_unchanged_witness:
  "bytes_per_sample pcm_header \<noteq> 0
     \<and> (\<exists>out. silence_section (replicate BLOCK 255) 62 pcm_header = Inr out
           \<and> length out = BLOCK \<and> out ! 0 = 255 \<and> out ! 2000 = 0)"
proof -
  have b: "bytes_per_sample pcm_header \<noteq> 0"
    by (simp add: bps_pcm)
  have w0: "\<not> in_window pcm_header (pos 62 0)"
    by (simp add: in_window_def pos_def BLOCK_def dstart_pcm dend_pcm)
  have w1: "in_window pcm_header (pos 62 2000)"
    by (simp add: in_window_def pos_def BLOCK_def dstart_pcm dend_pcm)
  have l: "0 < length (replicate BLOCK (255::u8))" "2000 < length (replicate BLOCK (255::u8))"
    "2000 < BLOCK"
    by (simp_all add: BLOCK_def)
  show ?thesis
    using b w0 w1 l silence_section_zero_or_unchanged [OF b, of "replicate BLOCK 255" 62]
    by (auto simp: BLOCK_def)
qed

end
